theory Spec2Isabelle
  imports Complex_Main "HOL-Library.Log_Nat"
begin

section \<open>Luminance and emissive intensity (src/lib/three/luminance.ts)\<close>

text \<open>
  The module is four exported functions over strings and numbers. In this embedding
  \<^item> a JavaScript string is a \<open>string\<close> (the list of its bytes; every character the
    functions look at, the hash sign and the hexadecimal digits, is ASCII);
  \<^item> a JavaScript number is modelled twice. In the first embedding it is a \<open>real\<close>:
    arithmetic is exact, there is no rounding, no infinity and no NaN. It carries the
    properties that do not depend on rounding. In the second embedding, the functions
    named \<open>_f64\<close>, it is a \<open>number\<close>: a finite value, an infinity or NaN, every
    operation rounding its exact result to binary64. It carries the properties that do;
  \<^item> \<open>throw new Error(msg)\<close> is the value \<open>Inl (Error msg)\<close> of a sum type;
  \<^item> \<open>console.warn(msg)\<close> is recorded in the list of warnings returned beside the value;
  \<^item> a parameter with a default value is an \<open>option\<close>: \<open>None\<close> is the omitted argument.
\<close>

subsection \<open>Built-ins of the language used by the module\<close>

datatype error =
    Error string  \<comment> \<open>\<open>new Error(message)\<close>\<close>
  | NaN_component \<comment> \<open>a channel that \<open>parseInt\<close> could not read (NaN has no value in \<open>real\<close>)\<close>

text \<open>\<open>s.replace(c, t)\<close> with a string pattern of one character: the first occurrence only.\<close>

fun replace_first :: "char \<Rightarrow> string \<Rightarrow> string \<Rightarrow> string" where
  "replace_first c t [] = []"
| "replace_first c t (x # xs) = (if x = c then t @ xs else x # replace_first c t xs)"

text \<open>The character class \<open>[0-9A-Fa-f]\<close>.\<close>

definition is_hex_digit :: "char \<Rightarrow> bool" where
  "is_hex_digit c = (c \<in> set ''0123456789ABCDEFabcdef'')"

text \<open>\<open>/^[0-9A-Fa-f]{6}$/.test(s)\<close>: the whole string is six characters of the class.\<close>

definition hex6_test :: "string \<Rightarrow> bool" where
  "hex6_test s = (length s = 6 \<and> list_all is_hex_digit s)"

text \<open>\<open>s.substring(i, j)\<close>: both indices are clamped to the length and swapped when
  they are out of order.\<close>

definition substring :: "string \<Rightarrow> nat \<Rightarrow> nat \<Rightarrow> string" where
  "substring s i j =
     (let i' = min i (length s); j' = min j (length s);
          lo = min i' j'; hi = max i' j'
      in take (hi - lo) (drop lo s))"

text \<open>The value of one hexadecimal digit.\<close>

definition digit_value :: "char \<Rightarrow> int" where
  "digit_value c =
     (let n = (of_char c :: int)
      in if n \<le> 57 then n - 48 else if n \<le> 70 then n - 55 else n - 87)"

definition is_white_space :: "char \<Rightarrow> bool" where
  "is_white_space c = ((of_char c :: nat) \<in> {9, 10, 11, 12, 13, 32})"

text \<open>
  \<open>parseInt(s, 16)\<close>: leading white space is skipped, then an optional sign and an
  optional \<open>0x\<close> or \<open>0X\<close>, then the longest run of hexadecimal digits is read; what
  follows is ignored. \<open>None\<close> is NaN, the result when no digit can be read.
  Only the ASCII white space is modelled; the decoder calls \<open>parseInt\<close> on two
  characters that matched the pattern, where none of this applies.
\<close>

definition parseInt16 :: "string \<Rightarrow> int option" where
  "parseInt16 s =
     (let s1 = dropWhile is_white_space s;
          sign = (case s1 of x # _ \<Rightarrow> if x = CHR ''-'' then - 1 else 1 | [] \<Rightarrow> (1::int));
          s2 = (case s1 of x # xs \<Rightarrow> if x = CHR ''-'' \<or> x = CHR ''+'' then xs else s1 | [] \<Rightarrow> s1);
          s3 = (case s2 of
                  x # y # ys \<Rightarrow> if x = CHR ''0'' \<and> (y = CHR ''x'' \<or> y = CHR ''X'') then ys else s2
                | _ \<Rightarrow> s2);
          ds = takeWhile is_hex_digit s3
      in if ds = [] then None
         else Some (sign * foldl (\<lambda>acc d. 16 * acc + digit_value d) 0 ds))"

text \<open>A parameter declared with a default value.\<close>

definition default_param :: "'a \<Rightarrow> 'a option \<Rightarrow> 'a" where
  "default_param d arg = (case arg of None \<Rightarrow> d | Some v \<Rightarrow> v)"

subsection \<open>The module\<close>

record coefficients =
  red :: real
  green :: real
  blue :: real

definition REC709_COEFFICIENTS :: coefficients where
  "REC709_COEFFICIENTS = \<lparr>red = 0.2126, green = 0.7152, blue = 0.0722\<rparr>"

record rgb =
  r :: real
  g :: real
  b :: real

definition hexToRgb :: "string \<Rightarrow> error + rgb" where
  "hexToRgb hex =
     (let cleanHex = replace_first (CHR ''#'') [] hex
      in if \<not> hex6_test cleanHex
         then Inl (Error (''Invalid hex color: '' @ hex @ ''. Expected format: #RRGGBB''))
         else (case (parseInt16 (substring cleanHex 0 2),
                     parseInt16 (substring cleanHex 2 4),
                     parseInt16 (substring cleanHex 4 6)) of
                 (Some rv, Some gv, Some bv) \<Rightarrow>
                   Inr \<lparr>r = real_of_int rv / 255, g = real_of_int gv / 255,
                        b = real_of_int bv / 255\<rparr>
               | _ \<Rightarrow> Inl NaN_component))"

definition calculateLuminance :: "rgb \<Rightarrow> real" where
  "calculateLuminance c =
     red REC709_COEFFICIENTS * r c + green REC709_COEFFICIENTS * g c
       + blue REC709_COEFFICIENTS * b c"

definition zero_luminance_warning :: "string \<Rightarrow> string" where
  "zero_luminance_warning hexColor =
     ''Color '' @ hexColor @ '' has zero luminance and cannot bloom. Returning intensity 1.0.''"

definition calculateEmissiveIntensity :: "string \<Rightarrow> real option \<Rightarrow> error + real \<times> string list" where
  "calculateEmissiveIntensity hexColor target =
     (let targetLuminance = default_param 1.05 target
      in case hexToRgb hexColor of
           Inl e \<Rightarrow> Inl e
         | Inr c \<Rightarrow>
             (let baseLuminance = calculateLuminance c
              in if baseLuminance = 0
                 then Inr (1.0, [zero_luminance_warning hexColor])
                 else (let requiredIntensity = targetLuminance / baseLuminance
                       in Inr (requiredIntensity, []))))"

definition calculateArtisticIntensity ::
  "string \<Rightarrow> real option \<Rightarrow> real option \<Rightarrow> error + real \<times> string list" where
  "calculateArtisticIntensity hexColor target factor =
     (let targetLuminance = default_param 2.0 target;
          compensationFactor = default_param 0.5 factor
      in case hexToRgb hexColor of
           Inl e \<Rightarrow> Inl e
         | Inr c \<Rightarrow>
             (let baseLuminance = calculateLuminance c
              in if baseLuminance = 0
                 then Inr (1.0, [zero_luminance_warning hexColor])
                 else (let fullCompensation = targetLuminance / baseLuminance;
                           partialCompensation =
                             1.0 + (fullCompensation - 1.0) * compensationFactor
                       in Inr (partialCompensation, []))))"

definition getColorLuminance :: "string \<Rightarrow> error + real" where
  "getColorLuminance hexColor =
     (case hexToRgb hexColor of Inl e \<Rightarrow> Inl e | Inr c \<Rightarrow> Inr (calculateLuminance c))"

subsection \<open>Numbers in binary64\<close>

text \<open>
  A number is NaN, an infinity or a finite value. Every arithmetic operation computes the
  exact result and rounds it to the nearest binary64 value, ties to the even significand;
  a result whose magnitude reaches \<open>2 ^ 1024 - 2 ^ 970\<close> overflows to an infinity, and
  below \<open>2 ^ -1022\<close> the spacing stays at \<open>2 ^ -1074\<close> (subnormal numbers, then 0).
  The sign of a zero is not modelled: a zero is the positive one. The module never divides
  by a zero and never looks at the sign of one.
\<close>

datatype number = NaN | PosInf | NegInf | Num real

text \<open>The nearest integer, a tie going to the even one.\<close>

definition round_half_even :: "real \<Rightarrow> int" where
  "round_half_even y =
     (let n = \<lfloor>y\<rfloor>; d = y - of_int n
      in if d < 1 / 2 then n else if 1 / 2 < d then n + 1 else if even n then n else n + 1)"

text \<open>The integer part of the binary logarithm of a positive number.\<close>

definition floor_log2 :: "real \<Rightarrow> int" where
  "floor_log2 x = (if 1 \<le> x then bitlen \<lfloor>x\<rfloor> - 1 else - bitlen (\<lceil>1 / x\<rceil> - 1))"

text \<open>The binary exponent of a value, the spacing of binary64 around it, and the value
  rounded to that spacing.\<close>

definition exponent :: "real \<Rightarrow> int" where
  "exponent x = (if x = 0 then - 1022 else max (floor_log2 \<bar>x\<bar>) (- 1022))"

definition ulp :: "real \<Rightarrow> real" where
  "ulp x = 2 powi (exponent x - 52)"

definition fl :: "real \<Rightarrow> real" where
  "fl x = ulp x * of_int (round_half_even (x / ulp x))"

text \<open>The result of an operation whose exact value is \<open>x\<close>; a literal is rounded the same way.\<close>

definition overflow_threshold :: real where
  "overflow_threshold = 2 ^ 1024 - 2 ^ 970"

definition round64 :: "real \<Rightarrow> number" where
  "round64 x =
     (if overflow_threshold \<le> \<bar>x\<bar> then (if x < 0 then NegInf else PosInf) else Num (fl x))"

text \<open>Negation, addition, subtraction, multiplication and division.\<close>

fun fneg :: "number \<Rightarrow> number" where
  "fneg (Num x) = Num (- x)"
| "fneg PosInf = NegInf"
| "fneg NegInf = PosInf"
| "fneg NaN = NaN"

fun fadd :: "number \<Rightarrow> number \<Rightarrow> number" where
  "fadd (Num x) (Num y) = round64 (x + y)"
| "fadd NaN _ = NaN"
| "fadd _ NaN = NaN"
| "fadd PosInf NegInf = NaN"
| "fadd NegInf PosInf = NaN"
| "fadd PosInf _ = PosInf"
| "fadd _ PosInf = PosInf"
| "fadd NegInf _ = NegInf"
| "fadd _ NegInf = NegInf"

definition fsub :: "number \<Rightarrow> number \<Rightarrow> number" where
  "fsub x y = fadd x (fneg y)"

fun fmul :: "number \<Rightarrow> number \<Rightarrow> number" where
  "fmul (Num x) (Num y) = round64 (x * y)"
| "fmul NaN _ = NaN"
| "fmul _ NaN = NaN"
| "fmul PosInf (Num y) = (if y = 0 then NaN else if 0 < y then PosInf else NegInf)"
| "fmul NegInf (Num y) = (if y = 0 then NaN else if 0 < y then NegInf else PosInf)"
| "fmul (Num x) PosInf = (if x = 0 then NaN else if 0 < x then PosInf else NegInf)"
| "fmul (Num x) NegInf = (if x = 0 then NaN else if 0 < x then NegInf else PosInf)"
| "fmul PosInf PosInf = PosInf"
| "fmul PosInf NegInf = NegInf"
| "fmul NegInf PosInf = NegInf"
| "fmul NegInf NegInf = PosInf"

fun fdiv :: "number \<Rightarrow> number \<Rightarrow> number" where
  "fdiv (Num x) (Num y) =
     (if y = 0 then (if x = 0 then NaN else if 0 < x then PosInf else NegInf)
      else round64 (x / y))"
| "fdiv NaN _ = NaN"
| "fdiv _ NaN = NaN"
| "fdiv (Num x) PosInf = Num 0"
| "fdiv (Num x) NegInf = Num 0"
| "fdiv PosInf (Num y) = (if 0 \<le> y then PosInf else NegInf)"
| "fdiv NegInf (Num y) = (if 0 \<le> y then NegInf else PosInf)"
| "fdiv _ _ = NaN"

subsection \<open>The module in binary64\<close>

record coefficients_f64 =
  red_f64 :: number
  green_f64 :: number
  blue_f64 :: number

definition REC709_COEFFICIENTS_f64 :: coefficients_f64 where
  "REC709_COEFFICIENTS_f64 =
     \<lparr>red_f64 = round64 0.2126, green_f64 = round64 0.7152, blue_f64 = round64 0.0722\<rparr>"

record rgb_f64 =
  r_f64 :: number
  g_f64 :: number
  b_f64 :: number

definition hexToRgb_f64 :: "string \<Rightarrow> error + rgb_f64" where
  "hexToRgb_f64 hex =
     (let cleanHex = replace_first (CHR ''#'') [] hex
      in if \<not> hex6_test cleanHex
         then Inl (Error (''Invalid hex color: '' @ hex @ ''. Expected format: #RRGGBB''))
         else (case (parseInt16 (substring cleanHex 0 2),
                     parseInt16 (substring cleanHex 2 4),
                     parseInt16 (substring cleanHex 4 6)) of
                 (Some rv, Some gv, Some bv) \<Rightarrow>
                   Inr \<lparr>r_f64 = fdiv (Num (real_of_int rv)) (Num 255),
                        g_f64 = fdiv (Num (real_of_int gv)) (Num 255),
                        b_f64 = fdiv (Num (real_of_int bv)) (Num 255)\<rparr>
               | _ \<Rightarrow> Inl NaN_component))"

definition calculateLuminance_f64 :: "rgb_f64 \<Rightarrow> number" where
  "calculateLuminance_f64 c =
     fadd (fadd (fmul (red_f64 REC709_COEFFICIENTS_f64) (r_f64 c))
                (fmul (green_f64 REC709_COEFFICIENTS_f64) (g_f64 c)))
          (fmul (blue_f64 REC709_COEFFICIENTS_f64) (b_f64 c))"

definition calculateEmissiveIntensity_f64 ::
  "string \<Rightarrow> number option \<Rightarrow> error + number \<times> string list" where
  "calculateEmissiveIntensity_f64 hexColor target =
     (let targetLuminance = default_param (round64 1.05) target
      in case hexToRgb_f64 hexColor of
           Inl e \<Rightarrow> Inl e
         | Inr c \<Rightarrow>
             (let baseLuminance = calculateLuminance_f64 c
              in if baseLuminance = Num 0
                 then Inr (Num 1.0, [zero_luminance_warning hexColor])
                 else (let requiredIntensity = fdiv targetLuminance baseLuminance
                       in Inr (requiredIntensity, []))))"

definition calculateArtisticIntensity_f64 ::
  "string \<Rightarrow> number option \<Rightarrow> number option \<Rightarrow> error + number \<times> string list" where
  "calculateArtisticIntensity_f64 hexColor target factor =
     (let targetLuminance = default_param (Num 2.0) target;
          compensationFactor = default_param (Num 0.5) factor
      in case hexToRgb_f64 hexColor of
           Inl e \<Rightarrow> Inl e
         | Inr c \<Rightarrow>
             (let baseLuminance = calculateLuminance_f64 c
              in if baseLuminance = Num 0
                 then Inr (Num 1.0, [zero_luminance_warning hexColor])
                 else (let fullCompensation = fdiv targetLuminance baseLuminance;
                           partialCompensation =
                             fadd (Num 1.0) (fmul (fsub fullCompensation (Num 1.0)) compensationFactor)
                       in Inr (partialCompensation, []))))"

subsection \<open>Notions used to state the properties\<close>

text \<open>The number a channel of two hexadecimal digits stands for, over 255.\<close>

definition channel :: "char \<Rightarrow> char \<Rightarrow> real" where
  "channel x y = real_of_int (16 * digit_value x + digit_value y) / 255"

text \<open>Stripping an optional leading hash sign, as the specification words it.\<close>

definition strip_leading_hash :: "string \<Rightarrow> string" where
  "strip_leading_hash s = (case s of [] \<Rightarrow> [] | x # xs \<Rightarrow> if x = CHR ''#'' then xs else s)"

section \<open>Properties\<close>

subsection \<open>The built-ins on hexadecimal digits\<close>

lemma is_hex_digit_not_special:
  assumes "is_hex_digit c"
  shows "c \<noteq> CHR ''#''" "\<not> is_white_space c" "c \<noteq> CHR ''-''" "c \<noteq> CHR ''+''"
    "c \<noteq> CHR ''x''" "c \<noteq> CHR ''X''"
  using assms by (auto simp: is_hex_digit_def is_white_space_def)

lemma digit_value_range:
  assumes "is_hex_digit c"
  shows "0 \<le> digit_value c" "digit_value c \<le> 15"
  using assms by (auto simp: is_hex_digit_def digit_value_def)

lemma digit_value_table:
  "map digit_value ''0123456789abcdef'' = [0, 1, 2, 3, 4, 5, 6, 7, 8, 9, 10, 11, 12, 13, 14, 15]"
  "map digit_value ''0123456789ABCDEF'' = [0, 1, 2, 3, 4, 5, 6, 7, 8, 9, 10, 11, 12, 13, 14, 15]"
  by (simp_all add: digit_value_def)

lemma replace_first_absent: "c \<notin> set s \<Longrightarrow> replace_first c t s = s"
  by (induction s) auto

lemma length6_cases:
  assumes "length s = 6"
  obtains x1 x2 x3 x4 x5 x6 where "s = [x1, x2, x3, x4, x5, x6]"
  using assms by (auto simp: length_Suc_conv eval_nat_numeral)

lemma parseInt16_two_digits:
  assumes "is_hex_digit x" "is_hex_digit y"
  shows "parseInt16 [x, y] = Some (16 * digit_value x + digit_value y)"
  using is_hex_digit_not_special[OF assms(1)] is_hex_digit_not_special[OF assms(2)] assms
  by (simp add: parseInt16_def)

subsection \<open>The decoder on accepted and on rejected strings\<close>

lemma channel_range:
  assumes "is_hex_digit x" "is_hex_digit y"
  shows "0 \<le> channel x y" "channel x y \<le> 1"
  using digit_value_range[OF assms(1)] digit_value_range[OF assms(2)]
  by (simp_all add: channel_def)

lemma hexToRgb_clean:
  assumes "replace_first (CHR ''#'') [] hex = [x1, x2, x3, x4, x5, x6]"
    and "list_all is_hex_digit [x1, x2, x3, x4, x5, x6]"
  shows "hexToRgb hex = Inr \<lparr>r = channel x1 x2, g = channel x3 x4, b = channel x5 x6\<rparr>"
  using assms
  by (simp add: hexToRgb_def hex6_test_def substring_def parseInt16_two_digits channel_def)

lemma hexToRgb_invalid:
  assumes "\<not> hex6_test (replace_first (CHR ''#'') [] hex)"
  shows "hexToRgb hex = Inl (Error (''Invalid hex color: '' @ hex @ ''. Expected format: #RRGGBB''))"
  using assms by (simp add: hexToRgb_def)

lemma hexToRgb_valid:
  assumes "hex6_test (replace_first (CHR ''#'') [] hex)"
  obtains x1 x2 x3 x4 x5 x6 where
    "replace_first (CHR ''#'') [] hex = [x1, x2, x3, x4, x5, x6]"
    "list_all is_hex_digit [x1, x2, x3, x4, x5, x6]"
    "hexToRgb hex = Inr \<lparr>r = channel x1 x2, g = channel x3 x4, b = channel x5 x6\<rparr>"
proof -
  from assms have len: "length (replace_first (CHR ''#'') [] hex) = 6"
    and all: "list_all is_hex_digit (replace_first (CHR ''#'') [] hex)"
    by (simp_all add: hex6_test_def)
  from len obtain x1 x2 x3 x4 x5 x6
    where eq: "replace_first (CHR ''#'') [] hex = [x1, x2, x3, x4, x5, x6]"
    by (rule length6_cases)
  from all eq have "list_all is_hex_digit [x1, x2, x3, x4, x5, x6]" by simp
  with eq show thesis using that hexToRgb_clean by blast
qed

lemma hexToRgb_Inr_iff:
  "(\<exists>c. hexToRgb hex = Inr c) \<longleftrightarrow> hex6_test (replace_first (CHR ''#'') [] hex)"
proof (cases "hex6_test (replace_first (CHR ''#'') [] hex)")
  case True
  then obtain c where "hexToRgb hex = Inr c" by (rule hexToRgb_valid)
  with True show ?thesis by simp
next
  case False
  then show ?thesis by (simp add: hexToRgb_invalid)
qed

lemma hex6_no_hash: "hex6_test s \<Longrightarrow> CHR ''#'' \<notin> set s"
  using is_hex_digit_not_special(1) by (auto simp: hex6_test_def list_all_iff)

lemma hexToRgb_range:
  assumes "hexToRgb hex = Inr c"
  shows "0 \<le> r c \<and> r c \<le> 1 \<and> 0 \<le> g c \<and> g c \<le> 1 \<and> 0 \<le> b c \<and> b c \<le> 1"
proof -
  from assms have "hex6_test (replace_first (CHR ''#'') [] hex)"
    using hexToRgb_Inr_iff by blast
  then show ?thesis
    using assms by (elim hexToRgb_valid) (auto simp: channel_range)
qed

subsection \<open>The intensity functions on each path\<close>

lemma luminance_nonneg:
  assumes "hexToRgb hex = Inr c"
  shows "0 \<le> calculateLuminance c"
  using hexToRgb_range[OF assms]
  by (simp add: calculateLuminance_def REC709_COEFFICIENTS_def)

lemma getColorLuminance_Inr:
  "getColorLuminance hex = Inr l \<longleftrightarrow> (\<exists>c. hexToRgb hex = Inr c \<and> calculateLuminance c = l)"
  by (auto simp: getColorLuminance_def split: sum.splits)

lemma emissive_nonzero:
  assumes "getColorLuminance hex = Inr l" "l \<noteq> 0"
  shows "calculateEmissiveIntensity hex target = Inr (default_param 1.05 target / l, [])"
  using assms by (auto simp: getColorLuminance_Inr calculateEmissiveIntensity_def)

lemma artistic_nonzero:
  assumes "getColorLuminance hex = Inr l" "l \<noteq> 0"
  shows "calculateArtisticIntensity hex target factor =
    Inr (1 + (default_param 2 target / l - 1) * default_param 0.5 factor, [])"
  using assms by (auto simp: getColorLuminance_Inr calculateArtisticIntensity_def)

lemma intensity_zero:
  assumes "getColorLuminance hex = Inr 0"
  shows "calculateEmissiveIntensity hex target = Inr (1, [zero_luminance_warning hex])"
    and "calculateArtisticIntensity hex target factor = Inr (1, [zero_luminance_warning hex])"
  using assms
  by (auto simp: getColorLuminance_Inr calculateEmissiveIntensity_def calculateArtisticIntensity_def)

text \<open>The definitions unfolded to evaluate the module on a concrete colour.\<close>

lemmas eval_defs = hexToRgb_def hex6_test_def is_hex_digit_def substring_def parseInt16_def
  is_white_space_def digit_value_def calculateLuminance_def REC709_COEFFICIENTS_def
  getColorLuminance_def calculateEmissiveIntensity_def calculateArtisticIntensity_def
  default_param_def zero_luminance_warning_def

subsection \<open>Which strings the decoder accepts\<close>

lemma strip_leading_hash_valid:
  assumes "hex6_test (strip_leading_hash hex)"
  shows "replace_first (CHR ''#'') [] hex = strip_leading_hash hex"
proof (cases hex)
  case Nil
  then show ?thesis by (simp add: strip_leading_hash_def)
next
  case (Cons x xs)
  show ?thesis
  proof (cases "x = CHR ''#''")
    case True
    with Cons show ?thesis by (simp add: strip_leading_hash_def)
  next
    case False
    with Cons assms have "hex6_test hex" by (simp add: strip_leading_hash_def)
    then have "replace_first (CHR ''#'') [] hex = hex"
      by (intro replace_first_absent hex6_no_hash)
    with Cons False show ?thesis by (simp add: strip_leading_hash_def)
  qed
qed

text \<open>
  A string that is six hexadecimal digits once an optional leading hash sign is stripped is
  decoded: the decoder raises on no such input.
\<close>

lemma hexToRgb_raises_only_on_malformed:
  assumes "hex6_test (strip_leading_hash hex)"
  shows "\<exists>c. hexToRgb hex = Inr c"
  using assms by (simp add: hexToRgb_Inr_iff strip_leading_hash_valid)

text \<open>
  Whenever the decoder raises, the error is the one whose message carries the input; the
  branch standing for a NaN channel is never taken.
\<close>

lemma hexToRgb_error_carries_input:
  assumes "hexToRgb hex = Inl e"
  shows "e = Error (''Invalid hex color: '' @ hex @ ''. Expected format: #RRGGBB'')"
proof (cases "hex6_test (replace_first (CHR ''#'') [] hex)")
  case True
  then obtain c where "hexToRgb hex = Inr c" by (rule hexToRgb_valid)
  with assms show ?thesis by simp
next
  case False
  with assms show ?thesis by (simp add: hexToRgb_invalid)
qed

lemma hexToRgb_no_NaN: "hexToRgb hex \<noteq> Inl NaN_component"
  using hexToRgb_error_carries_input[of hex NaN_component] by auto

text \<open>
  C2: every string that is not six hexadecimal digits after an optional leading hash sign
  is stripped should be rejected. The decoder removes the first hash sign wherever it
  stands, so \<open>ff#00ff\<close>, which has no leading hash sign and is not six hexadecimal
  digits, is decoded as magenta instead of being rejected.
\<close>

theorem hexToRgb_accepts_inner_hash:
  "\<not> hex6_test (strip_leading_hash ''ff#00ff'') \<and>
   hexToRgb ''ff#00ff'' = Inr \<lparr>r = 1, g = 0, b = 1\<rparr>"
  by (simp add: eval_defs strip_leading_hash_def)

subsection \<open>Decoding six hexadecimal digits\<close>

text \<open>
  C8: for every string \<open>s\<close> of six hexadecimal digits, of either letter case, the
  decoder succeeds on \<open>s\<close> and on \<open>s\<close> behind a hash sign with the same result;
  the red, green and blue components are the first, second and third pair of digits read
  in base 16 and divided by 255, and each lies between 0 and 1.
\<close>

theorem hexToRgb_six_digits:
  assumes "hex6_test s"
  shows "\<exists>c. hexToRgb s = Inr c \<and> hexToRgb (CHR ''#'' # s) = Inr c \<and>
     r c = real_of_int (16 * digit_value (s ! 0) + digit_value (s ! 1)) / 255 \<and>
     g c = real_of_int (16 * digit_value (s ! 2) + digit_value (s ! 3)) / 255 \<and>
     b c = real_of_int (16 * digit_value (s ! 4) + digit_value (s ! 5)) / 255 \<and>
     0 \<le> r c \<and> r c \<le> 1 \<and> 0 \<le> g c \<and> g c \<le> 1 \<and> 0 \<le> b c \<and> b c \<le> 1"
proof -
  from assms have same: "replace_first (CHR ''#'') [] s = s"
    by (intro replace_first_absent hex6_no_hash)
  have hash: "replace_first (CHR ''#'') [] (CHR ''#'' # s) = s" by simp
  from assms same have "hex6_test (replace_first (CHR ''#'') [] s)" by simp
  then obtain x1 x2 x3 x4 x5 x6 where
    eq: "replace_first (CHR ''#'') [] s = [x1, x2, x3, x4, x5, x6]"
    and digits: "list_all is_hex_digit [x1, x2, x3, x4, x5, x6]"
    and res: "hexToRgb s = Inr \<lparr>r = channel x1 x2, g = channel x3 x4, b = channel x5 x6\<rparr>"
    by (rule hexToRgb_valid)
  from eq same have s: "s = [x1, x2, x3, x4, x5, x6]" by simp
  from hash s have "replace_first (CHR ''#'') [] (CHR ''#'' # s) = [x1, x2, x3, x4, x5, x6]"
    by simp
  from hexToRgb_clean[OF this digits]
  have res': "hexToRgb (CHR ''#'' # s) = Inr \<lparr>r = channel x1 x2, g = channel x3 x4, b = channel x5 x6\<rparr>" .
  from digits have "0 \<le> channel x1 x2" "channel x1 x2 \<le> 1" "0 \<le> channel x3 x4"
    "channel x3 x4 \<le> 1" "0 \<le> channel x5 x6" "channel x5 x6 \<le> 1"
    by (simp_all add: channel_range)
  with res res' show ?thesis
    by (simp add: s channel_def)
qed

theorem hexToRgb_six_digits_witness:
  "\<exists>c. hexToRgb ''FfAa00'' = Inr c \<and> hexToRgb ''#FfAa00'' = Inr c \<and>
     r c = 1 \<and> g c = 170 / 255 \<and> b c = 0"
proof -
  have h: "hex6_test ''FfAa00''" by (simp add: hex6_test_def is_hex_digit_def)
  show ?thesis
    using hexToRgb_six_digits[OF h] by (auto simp: digit_value_def)
qed

subsection \<open>The luminance accessor\<close>

text \<open>
  C9: \<open>getColorLuminance\<close> is the decoder followed by \<open>calculateLuminance\<close>: on a
  colour the decoder accepts it returns the luminance of the decoded triple, and on any
  other input it fails with the decoder's error, which carries the input.
\<close>

theorem getColorLuminance_is_composition:
  "(hexToRgb c = Inr rgb \<longrightarrow> getColorLuminance c = Inr (calculateLuminance rgb)) \<and>
   (hexToRgb c = Inl e \<longrightarrow> getColorLuminance c = Inl e \<and>
      e = Error (''Invalid hex color: '' @ c @ ''. Expected format: #RRGGBB''))"
  using hexToRgb_error_carries_input[of c e] by (simp add: getColorLuminance_def)

theorem getColorLuminance_is_composition_witness:
  "hexToRgb ''#ff0000'' = Inr \<lparr>r = 1, g = 0, b = 0\<rparr> \<and>
   getColorLuminance ''#ff0000'' = Inr (calculateLuminance \<lparr>r = 1, g = 0, b = 0\<rparr>) \<and>
   hexToRgb ''#invalid'' = Inl (Error ''Invalid hex color: #invalid. Expected format: #RRGGBB'') \<and>
   getColorLuminance ''#invalid'' = Inl (Error ''Invalid hex color: #invalid. Expected format: #RRGGBB'')"
proof -
  have v: "hexToRgb ''#ff0000'' = Inr \<lparr>r = 1, g = 0, b = 0\<rparr>" by (simp add: eval_defs)
  have i: "hexToRgb ''#invalid'' = Inl (Error ''Invalid hex color: #invalid. Expected format: #RRGGBB'')"
    by (simp add: eval_defs)
  show ?thesis
    using v i getColorLuminance_is_composition[of "''#ff0000''" "\<lparr>r = 1, g = 0, b = 0\<rparr>"]
      getColorLuminance_is_composition[of "''#invalid''" _
        "Error ''Invalid hex color: #invalid. Expected format: #RRGGBB''"]
    by simp
qed

subsection \<open>Full compensation\<close>

text \<open>
  C3: for a valid colour of nonzero base luminance \<open>calculateEmissiveIntensity\<close>
  returns the target divided by the base luminance, the default target being 1.05, and
  emits no warning; for magenta at target 1.05 the value is within 0.01 of 3.69 and for
  yellow within 0.01 of 1.13.
\<close>

theorem emissive_is_target_over_luminance:
  "(getColorLuminance c = Inr l \<and> l \<noteq> 0 \<longrightarrow>
      calculateEmissiveIntensity c (Some t) = Inr (t / l, []) \<and>
      calculateEmissiveIntensity c None = Inr (1.05 / l, [])) \<and>
   calculateEmissiveIntensity ''#ff00ff'' (Some 1.05) = Inr (2625 / 712, []) \<and>
   \<bar>2625 / 712 - 3.69\<bar> < (0.01 :: real) \<and>
   calculateEmissiveIntensity ''#ffff00'' (Some 1.05) = Inr (5250 / 4639, []) \<and>
   \<bar>5250 / 4639 - 1.13\<bar> < (0.01 :: real)"
proof -
  have "calculateEmissiveIntensity c (Some t) = Inr (t / l, []) \<and>
      calculateEmissiveIntensity c None = Inr (1.05 / l, [])"
    if "getColorLuminance c = Inr l" "l \<noteq> 0"
    using emissive_nonzero[OF that] by (simp add: default_param_def)
  moreover have "calculateEmissiveIntensity ''#ff00ff'' (Some 1.05) = Inr (2625 / 712, [])"
    by (simp add: eval_defs)
  moreover have "calculateEmissiveIntensity ''#ffff00'' (Some 1.05) = Inr (5250 / 4639, [])"
    by (simp add: eval_defs)
  moreover have "\<bar>2625 / 712 - 3.69\<bar> < (0.01 :: real)" "\<bar>5250 / 4639 - 1.13\<bar> < (0.01 :: real)"
    by simp_all
  ultimately show ?thesis by blast
qed

theorem emissive_is_target_over_luminance_witness:
  "getColorLuminance ''#ff0000'' = Inr (1063 / 5000) \<and>
   calculateEmissiveIntensity ''#ff0000'' (Some 2) = Inr (2 / (1063 / 5000), []) \<and>
   calculateEmissiveIntensity ''#ff0000'' None = Inr (1.05 / (1063 / 5000), [])"
proof -
  have l: "getColorLuminance ''#ff0000'' = Inr (1063 / 5000)" by (simp add: eval_defs)
  show ?thesis
    using l emissive_is_target_over_luminance[of "''#ff0000''" "1063 / 5000" 2] by simp
qed

text \<open>
  C4: for a valid colour of base luminance 0, both intensity functions return the fallback
  1 together with one warning, whatever the target and the factor; nothing is raised.
\<close>

theorem black_returns_fallback:
  assumes "getColorLuminance c = Inr 0"
  shows "calculateEmissiveIntensity c target = Inr (1, [zero_luminance_warning c]) \<and>
         calculateArtisticIntensity c target factor = Inr (1, [zero_luminance_warning c])"
  using intensity_zero[OF assms] by simp

theorem black_returns_fallback_witness:
  "getColorLuminance ''#000000'' = Inr 0 \<and>
   calculateEmissiveIntensity ''#000000'' (Some 2) =
     Inr (1, [''Color #000000 has zero luminance and cannot bloom. Returning intensity 1.0.'']) \<and>
   calculateArtisticIntensity ''#000000'' (Some 2) (Some 0.5) =
     Inr (1, [''Color #000000 has zero luminance and cannot bloom. Returning intensity 1.0.''])"
proof -
  have l: "getColorLuminance ''#000000'' = Inr 0" by (simp add: eval_defs)
  show ?thesis
    using l black_returns_fallback[OF l, where target = "Some 2" and factor = "Some 0.5"]
    by (simp add: zero_luminance_warning_def)
qed

text \<open>
  White at target -1: the value returned is -1, so a target that is not restricted does
  not always give a value of at least 0.
\<close>

theorem emissive_negative_counterexample:
  "calculateEmissiveIntensity ''#ffffff'' (Some (- 1)) = Inr (- 1, []) \<and> \<not> (0::real) \<le> - 1"
  by (simp add: eval_defs)

text \<open>
  C6 (as amended): for a valid colour, the value returned by
  \<open>calculateEmissiveIntensity\<close> is at least 0 when the target is at least 0 or is
  omitted; when the target is negative and the base luminance is not 0 the value is
  negative.
\<close>

theorem emissive_sign_follows_target:
  assumes "hexToRgb c = Inr rgb"
  shows "(\<exists>v w. calculateEmissiveIntensity c None = Inr (v, w) \<and> 0 \<le> v) \<and>
     (\<exists>v w. calculateEmissiveIntensity c (Some t) = Inr (v, w) \<and>
        (0 \<le> t \<longrightarrow> 0 \<le> v) \<and>
        (t < 0 \<and> calculateLuminance rgb \<noteq> 0 \<longrightarrow> v < 0))"
proof (cases "calculateLuminance rgb = 0")
  case True
  with assms have "getColorLuminance c = Inr 0" by (simp add: getColorLuminance_Inr)
  then show ?thesis using True by (simp add: intensity_zero)
next
  case False
  from assms have l: "getColorLuminance c = Inr (calculateLuminance rgb)"
    by (simp add: getColorLuminance_Inr)
  from luminance_nonneg[OF assms] False have pos: "0 < calculateLuminance rgb" by simp
  show ?thesis
    using pos by (simp add: emissive_nonzero[OF l False] default_param_def divide_neg_pos)
qed

theorem emissive_sign_follows_target_witness:
  "hexToRgb ''#ff00ff'' = Inr \<lparr>r = 1, g = 0, b = 1\<rparr> \<and>
   calculateLuminance \<lparr>r = 1, g = 0, b = 1\<rparr> \<noteq> 0 \<and>
   (\<exists>v w. calculateEmissiveIntensity ''#ff00ff'' None = Inr (v, w) \<and> 0 \<le> v) \<and>
   (\<exists>v w. calculateEmissiveIntensity ''#ff00ff'' (Some 1.05) = Inr (v, w) \<and> 0 \<le> v) \<and>
   (\<exists>v w. calculateEmissiveIntensity ''#ff00ff'' (Some (- 1)) = Inr (v, w) \<and> v < 0)"
proof -
  have h: "hexToRgb ''#ff00ff'' = Inr \<lparr>r = 1, g = 0, b = 1\<rparr>" by (simp add: eval_defs)
  have n: "calculateLuminance \<lparr>r = 1, g = 0, b = 1\<rparr> \<noteq> 0"
    by (simp add: calculateLuminance_def REC709_COEFFICIENTS_def)
  show ?thesis
    using h n emissive_sign_follows_target[OF h, of "1.05"]
      emissive_sign_follows_target[OF h, of "- 1"]
    by simp
qed

subsection \<open>Partial compensation and the gap between two colours\<close>


section \<open>Properties that depend on rounding\<close>

subsection \<open>Rounding to binary64\<close>

lemma pow2_less_iff: "(2::real) powi i < 2 powi j \<longleftrightarrow> i < j"
  by (metis power_int_strict_increasing power_int_increasing not_le not_less one_less_numeral_iff
      semiring_norm(76) less_eq_real_def)

lemma pow2_le_iff: "(2::real) powi i \<le> 2 powi j \<longleftrightarrow> i \<le> j"
  by (metis pow2_less_iff not_le)

lemma pow2_add: "(2::real) powi i * 2 powi j = 2 powi (i + j)"
  by (simp add: power_int_add)

lemma pow2_div: "(2::real) powi i / 2 powi j = 2 powi (i - j)"
  by (simp add: power_int_diff)

lemma pow2_of_int: "0 \<le> n \<Longrightarrow> (2::real) powi n = of_int (2 ^ nat n)"
  by (simp add: power_int_nonneg_exp)

lemma floor_log2_bounds:
  assumes "0 < x"
  shows "2 powi floor_log2 x \<le> x" and "x < 2 powi (floor_log2 x + 1)"
proof -
  have "2 powi floor_log2 x \<le> x \<and> x < 2 powi (floor_log2 x + 1)"
  proof (cases "1 \<le> x")
    case True
    define m where "m = \<lfloor>x\<rfloor>"
    have m: "0 < m" using True by (simp add: m_def)
    have e: "floor_log2 x = bitlen m - 1" using True by (simp add: floor_log2_def m_def)
    have b: "1 \<le> bitlen m" using m by (simp add: bitlen_alt_def)
    have lo: "(2::int) ^ nat (bitlen m - 1) \<le> m" and hi: "m < 2 ^ nat (bitlen m)"
      using bitlen_bounds[OF m] by simp_all
    have "(2::real) powi (bitlen m - 1) = of_int (2 ^ nat (bitlen m - 1))"
      using b by (simp add: power_int_nonneg_exp)
    also have "\<dots> \<le> real_of_int m"
      using lo by (simp only: of_int_le_iff)
    also have "\<dots> \<le> x" by (simp add: m_def)
    finally have 1: "2 powi floor_log2 x \<le> x" by (simp add: e)
    have "m + 1 \<le> 2 ^ nat (bitlen m)" using hi by simp
    then have "real_of_int (m + 1) \<le> of_int (2 ^ nat (bitlen m))"
      by (simp only: of_int_le_iff)
    moreover have "x < real_of_int (m + 1)" by (simp add: m_def)
    moreover have "(2::real) powi (bitlen m) = of_int (2 ^ nat (bitlen m))"
      using b by (simp add: power_int_nonneg_exp)
    ultimately have 2: "x < 2 powi (floor_log2 x + 1)" by (simp add: e)
    from 1 2 show ?thesis ..
  next
    case False
    define c where "c = \<lceil>1 / x\<rceil>"
    define k where "k = bitlen (c - 1)"
    have y: "1 < 1 / x" using False assms by simp
    then have c: "0 < c - 1" unfolding c_def by linarith
    have e: "floor_log2 x = - k" using False by (simp add: floor_log2_def c_def k_def)
    have k: "1 \<le> k" using c by (simp add: bitlen_alt_def k_def)
    have lo: "(2::int) ^ nat (k - 1) \<le> c - 1" and hi: "c - 1 < 2 ^ nat k"
      using bitlen_bounds[OF c] by (simp_all add: k_def)
    have pk: "(2::real) powi k = of_int (2 ^ nat k)"
      using k by (simp add: power_int_nonneg_exp)
    have pk1: "(2::real) powi (k - 1) = of_int (2 ^ nat (k - 1))"
      using k by (simp add: power_int_nonneg_exp)
    have "c \<le> 2 ^ nat k" using hi by simp
    then have "real_of_int c \<le> 2 powi k" unfolding pk by (simp only: of_int_le_iff)
    moreover have "1 / x \<le> real_of_int c" by (simp add: c_def)
    ultimately have "1 / x \<le> 2 powi k" by simp
    then have "1 \<le> 2 powi k * x" using assms by (simp add: field_simps)
    then have 1: "2 powi (- k) \<le> x"
      by (simp add: power_int_minus field_simps)
    have "real_of_int (c - 1) < 1 / x" unfolding c_def by linarith
    moreover have "2 powi (k - 1) \<le> real_of_int (c - 1)"
      unfolding pk1 using lo by (simp only: of_int_le_iff)
    ultimately have "2 powi (k - 1) < 1 / x" by simp
    moreover have "0 < (2::real) powi (k - 1)" by simp
    ultimately have "x < 1 / 2 powi (k - 1)"
      using assms by (simp add: pos_less_divide_eq mult.commute)
    moreover have "(2::real) powi (- k + 1) = 1 / 2 powi (k - 1)"
      using power_int_minus_divide[of "2::real" "k - 1"] by simp
    ultimately have 2: "x < 2 powi (- k + 1)" by simp
    from 1 2 show ?thesis by (simp add: e)
  qed
  then show "2 powi floor_log2 x \<le> x" and "x < 2 powi (floor_log2 x + 1)" by simp_all
qed

lemma floor_log2_eqI:
  assumes "2 powi e \<le> x" and "x < 2 powi (e + 1)"
  shows "floor_log2 x = e"
proof -
  have pos: "0 < x" using assms(1) by (rule less_le_trans[rotated]) simp
  from floor_log2_bounds[OF pos] assms
  have "(2::real) powi e < 2 powi (floor_log2 x + 1)" and "(2::real) powi floor_log2 x < 2 powi (e + 1)"
    by linarith+
  then show ?thesis by (simp add: pow2_less_iff)
qed


lemma round_half_even_of_int: "round_half_even (of_int n) = n"
  by (simp add: round_half_even_def)

lemma round_half_even_cases:
  "round_half_even y = \<lfloor>y\<rfloor> \<and> y - of_int \<lfloor>y\<rfloor> \<le> 1 / 2 \<or>
   round_half_even y = \<lfloor>y\<rfloor> + 1 \<and> 1 / 2 \<le> y - of_int \<lfloor>y\<rfloor>"
  by (auto simp: round_half_even_def Let_def)

lemma round_half_even_mono:
  assumes "x \<le> y"
  shows "round_half_even x \<le> round_half_even y"
proof (cases "\<lfloor>x\<rfloor> = \<lfloor>y\<rfloor>")
  case True
  with assms show ?thesis by (auto simp: round_half_even_def Let_def)
next
  case False
  with assms have "\<lfloor>x\<rfloor> + 1 \<le> \<lfloor>y\<rfloor>" using floor_mono[OF assms] by linarith
  moreover have "round_half_even x \<le> \<lfloor>x\<rfloor> + 1" using round_half_even_cases[of x] by auto
  moreover have "\<lfloor>y\<rfloor> \<le> round_half_even y" using round_half_even_cases[of y] by auto
  ultimately show ?thesis by linarith
qed

lemma round_half_even_error: "\<bar>of_int (round_half_even y) - y\<bar> \<le> 1 / 2"
  using round_half_even_cases[of y] by (auto simp: abs_le_iff)

lemma round_half_even_minus: "round_half_even (- y) = - round_half_even y"
proof (cases "y = of_int \<lfloor>y\<rfloor>")
  case True
  then obtain n where "y = of_int n" ..
  then have "- y = of_int (- n)" by simp
  then show ?thesis using \<open>y = of_int n\<close> by (simp only: round_half_even_of_int)
next
  case False
  then have fl: "\<lfloor>- y\<rfloor> = - \<lfloor>y\<rfloor> - 1"
    by (simp add: floor_minus ceiling_altdef)
  have "y \<noteq> of_int \<lfloor>y\<rfloor>" using False .
  moreover have "of_int \<lfloor>y\<rfloor> \<le> y" by simp
  ultimately have d: "0 < y - of_int \<lfloor>y\<rfloor>" by linarith
  define n where "n = \<lfloor>y\<rfloor>"
  define d where "d = y - of_int n"
  have y: "y = of_int n + d" by (simp add: d_def)
  have dpos: "0 < d" using d by (simp add: d_def n_def)
  have l: "round_half_even y = (if d < 1 / 2 then n else if 1 / 2 < d then n + 1 else if even n then n else n + 1)"
    by (simp add: round_half_even_def Let_def n_def d_def)
  have "- y - of_int (- n - 1) = 1 - d" by (simp add: d_def)
  then have r: "round_half_even (- y) =
    (if 1 - d < 1 / 2 then - n - 1 else if 1 / 2 < 1 - d then - n else if even (- n - 1) then - n - 1 else - n)"
    unfolding round_half_even_def Let_def fl n_def[symmetric] by simp
  show ?thesis unfolding l r by auto
qed


lemma exponent_minus: "exponent (- x) = exponent x"
  by (simp add: exponent_def)

lemma exponent_ge: "- 1022 \<le> exponent x"
  by (simp add: exponent_def)

lemma exponent_upper: "\<bar>x\<bar> < 2 powi (exponent x + 1)"
proof (cases "x = 0")
  case True
  then show ?thesis by simp
next
  case False
  then have "\<bar>x\<bar> < 2 powi (floor_log2 \<bar>x\<bar> + 1)" by (simp add: floor_log2_bounds)
  also have "\<dots> \<le> 2 powi (exponent x + 1)"
    using False by (simp add: pow2_le_iff exponent_def)
  finally show ?thesis .
qed

lemma exponent_lower:
  assumes "- 1022 < exponent x"
  shows "2 powi exponent x \<le> \<bar>x\<bar>"
proof -
  from assms have "x \<noteq> 0" by (auto simp: exponent_def)
  with assms have "exponent x = floor_log2 \<bar>x\<bar>" by (simp add: exponent_def max_def split: if_splits)
  then show ?thesis using \<open>x \<noteq> 0\<close> by (simp add: floor_log2_bounds)
qed

lemma exponent_eqI:
  assumes "2 powi e \<le> \<bar>x\<bar>" and "\<bar>x\<bar> < 2 powi (e + 1)"
  shows "exponent x = max e (- 1022)"
proof -
  have "0 < \<bar>x\<bar>" using assms(1) by (rule less_le_trans[rotated]) simp
  then have "x \<noteq> 0" by simp
  then show ?thesis using floor_log2_eqI[OF assms] by (simp add: exponent_def)
qed

lemma exponent_subnormal:
  assumes "\<bar>x\<bar> < 2 powi (- 1022)"
  shows "exponent x = - 1022"
proof (rule ccontr)
  assume "exponent x \<noteq> - 1022"
  with exponent_ge[of x] have gt: "- 1022 < exponent x" by simp
  from exponent_lower[OF gt] assms have "(2::real) powi exponent x < 2 powi (- 1022)" by linarith
  then have "exponent x < - 1022" by (simp only: pow2_less_iff)
  with gt show False by simp
qed

lemma exponent_mono:
  assumes "\<bar>x\<bar> \<le> \<bar>y\<bar>"
  shows "exponent x \<le> exponent y"
proof (cases "- 1022 < exponent x")
  case True
  from exponent_lower[OF True] assms exponent_upper[of y]
  have "(2::real) powi exponent x < 2 powi (exponent y + 1)" by linarith
  then show ?thesis by (simp add: pow2_less_iff)
next
  case False
  with exponent_ge[of x] have "exponent x = - 1022" by simp
  then show ?thesis using exponent_ge[of y] by simp
qed

lemma ulp_pos: "0 < ulp x"
  by (simp add: ulp_def)

lemma ulp_minus: "ulp (- x) = ulp x"
  by (simp add: ulp_def exponent_minus)

lemma fl_minus: "fl (- x) = - fl x"
  by (simp add: fl_def ulp_minus round_half_even_minus)

lemma fl_zero: "fl 0 = 0"
  by (simp add: fl_def round_half_even_def)

lemma fl_nonneg:
  assumes "0 \<le> x"
  shows "0 \<le> fl x"
proof -
  have "0 \<le> x / ulp x" using assms ulp_pos[of x] by simp
  from round_half_even_mono[OF this] have "0 \<le> round_half_even (x / ulp x)"
    using round_half_even_of_int[of 0] by simp
  then show ?thesis using ulp_pos[of x] by (simp add: fl_def)
qed

lemma fl_eqI:
  assumes "2 powi e \<le> \<bar>x\<bar>" and "\<bar>x\<bar> < 2 powi (e + 1)" and "- 1022 \<le> e"
    and "round_half_even (x / 2 powi (e - 52)) = n" and "y = 2 powi (e - 52) * of_int n"
  shows "fl x = y"
  using exponent_eqI[OF assms(1,2)] assms(3-5) by (simp add: fl_def ulp_def max_def)

lemma fl_subnormal_eqI:
  assumes "\<bar>x\<bar> < 2 powi (- 1022)"
    and "round_half_even (x / 2 powi (- 1074)) = n" and "y = 2 powi (- 1074) * of_int n"
  shows "fl x = y"
  using exponent_subnormal[OF assms(1)] assms(2,3) by (simp add: fl_def ulp_def)

lemma round_half_even_pow2:
  assumes "0 \<le> n"
  shows "real_of_int (round_half_even (2 powi n)) = 2 powi n"
  unfolding pow2_of_int[OF assms] round_half_even_of_int ..

lemma ulp_times: "ulp x * 2 powi n = 2 powi (exponent x - 52 + n)"
  unfolding ulp_def pow2_add ..

lemma fl_pow2:
  assumes "- 1074 \<le> k"
  shows "fl (2 powi k) = 2 powi k"
proof -
  define e where "e = exponent (2 powi k)"
  have "e = k \<or> (e = - 1022 \<and> k < - 1022)"
  proof (cases "- 1022 \<le> k")
    case True
    have "(2::real) powi k < 2 powi (k + 1)" unfolding pow2_less_iff by simp
    then have "exponent (2 powi k) = max k (- 1022)"
      by (intro exponent_eqI) simp_all
    with True show ?thesis by (simp add: e_def)
  next
    case False
    then have "(2::real) powi k < 2 powi (- 1022)" unfolding pow2_less_iff by simp
    then have "\<bar>(2::real) powi k\<bar> < 2 powi (- 1022)" by simp
    then have "exponent (2 powi k) = - 1022" by (rule exponent_subnormal)
    with False show ?thesis by (simp add: e_def)
  qed
  then have n: "0 \<le> k - (e - 52)" using assms by auto
  have "fl (2 powi k) = 2 powi (e - 52) * real_of_int (round_half_even (2 powi k / 2 powi (e - 52)))"
    by (simp add: fl_def ulp_def e_def)
  also have "\<dots> = 2 powi (e - 52) * 2 powi (k - (e - 52))"
    unfolding pow2_div round_half_even_pow2[OF n] ..
  also have "\<dots> = 2 powi k" unfolding pow2_add by simp
  finally show ?thesis .
qed

lemma fl_mono_pos:
  assumes "0 < x" and "x \<le> y"
  shows "fl x \<le> fl y"
proof -
  have le: "exponent x \<le> exponent y" using assms by (intro exponent_mono) simp
  show ?thesis
  proof (cases "exponent x = exponent y")
    case True
    then have u: "ulp x = ulp y" by (simp add: ulp_def)
    have "x / ulp y \<le> y / ulp y" using assms ulp_pos[of y] by (simp add: divide_right_mono)
    from round_half_even_mono[OF this] show ?thesis
      using ulp_pos[of y] by (simp add: fl_def u)
  next
    case False
    with le have lt: "exponent x < exponent y" by simp
    define P where "P = (2::real) powi 53"
    define Q where "Q = (2::real) powi 52"
    have P: "real_of_int (round_half_even P) = P" unfolding P_def by (rule round_half_even_pow2) simp
    have Q: "real_of_int (round_half_even Q) = Q" unfolding Q_def by (rule round_half_even_pow2) simp
    have uP: "ulp x * P = 2 powi (exponent x + 1)"
      unfolding P_def ulp_times by (rule arg_cong[where f = "\<lambda>n. 2 powi n"]) simp
    have uQ: "ulp y * Q = 2 powi exponent y"
      unfolding Q_def ulp_times by (rule arg_cong[where f = "\<lambda>n. 2 powi n"]) simp
    have "x < ulp x * P" using exponent_upper[of x] assms unfolding uP by simp
    then have "x / ulp x \<le> P" using ulp_pos[of x] by (simp add: field_simps)
    then have "round_half_even (x / ulp x) \<le> round_half_even P"
      by (rule round_half_even_mono)
    then have "real_of_int (round_half_even (x / ulp x)) \<le> P"
      using P by linarith
    then have "fl x \<le> ulp x * P"
      using ulp_pos[of x] by (simp add: fl_def)
    also have "\<dots> \<le> 2 powi exponent y" unfolding uP pow2_le_iff using lt by simp
    finally have 1: "fl x \<le> 2 powi exponent y" .
    have gt: "- 1022 < exponent y" using lt exponent_ge[of x] by simp
    have "ulp y * Q \<le> y" unfolding uQ using exponent_lower[OF gt] assms by simp
    then have "Q \<le> y / ulp y" using ulp_pos[of y] by (simp add: field_simps)
    then have "round_half_even Q \<le> round_half_even (y / ulp y)"
      by (rule round_half_even_mono)
    then have "Q \<le> real_of_int (round_half_even (y / ulp y))"
      using Q by linarith
    then have "ulp y * Q \<le> fl y"
      using ulp_pos[of y] by (simp add: fl_def)
    then have 2: "2 powi exponent y \<le> fl y" unfolding uQ .
    from 1 2 show ?thesis by simp
  qed
qed

lemma fl_mono:
  assumes "x \<le> y"
  shows "fl x \<le> fl y"
proof -
  consider "0 < x" | "x \<le> 0" "0 \<le> y" | "y < 0" by linarith
  then show ?thesis
  proof cases
    case 1
    then show ?thesis using assms by (rule fl_mono_pos)
  next
    case 2
    then have "0 \<le> fl (- x)" and "0 \<le> fl y" by (simp_all add: fl_nonneg)
    then show ?thesis by (simp add: fl_minus)
  next
    case 3
    then have "fl (- y) \<le> fl (- x)" using assms by (intro fl_mono_pos) simp_all
    then show ?thesis by (simp add: fl_minus)
  qed
qed

text \<open>
  The definitions unfolded to evaluate a binary64 operation on concrete numbers.
\<close>

lemmas f64_eval = fl_def ulp_def exponent_def floor_log2_def compute_bitlen round_half_even_def
  round64_def overflow_threshold_def fsub_def Let_def

lemma fl_one: "fl 1 = 1"
  using fl_pow2[of 0] by simp

lemma fl_abs_le_pow2:
  assumes "\<bar>x\<bar> \<le> 2 powi k" and "- 1074 \<le> k"
  shows "\<bar>fl x\<bar> \<le> 2 powi k"
proof -
  have "x \<le> 2 powi k" and "- (2 powi k) \<le> x" using assms(1) by linarith+
  then have "fl x \<le> fl (2 powi k)" and "fl (- (2 powi k)) \<le> fl x"
    by (simp_all only: fl_mono)
  then show ?thesis
    unfolding fl_minus fl_pow2[OF assms(2)] by linarith
qed

lemma fl_ge_pow2:
  assumes "2 powi k \<le> x" and "- 1074 \<le> k"
  shows "2 powi k \<le> fl x"
  using fl_mono[OF assms(1)] unfolding fl_pow2[OF assms(2)] .

lemma round64_Num:
  assumes "\<bar>x\<bar> \<le> 2 powi 1002"
  shows "round64 x = Num (fl x)"
proof -
  have "(2::real) powi 1002 < overflow_threshold" by (simp add: overflow_threshold_def)
  with assms show ?thesis by (simp only: round64_def) auto
qed

lemma round64_eq_Num: "round64 x = Num v \<Longrightarrow> v = fl x \<and> \<bar>x\<bar> < overflow_threshold"
  by (auto simp: round64_def split: if_splits)

text \<open>
  A result below the overflow threshold rounds to at most the largest finite value.
\<close>

lemma fl_below_threshold_pos:
  assumes "0 \<le> t" and "t < overflow_threshold"
  shows "fl t \<le> 2 ^ 1024 - 2 ^ 971"
proof (cases "t \<le> 2 powi 1023")
  case True
  then have "fl t \<le> fl (2 powi 1023)" by (rule fl_mono)
  also have "\<dots> = 2 powi 1023" by (rule fl_pow2) simp
  also have "\<dots> \<le> 2 ^ 1024 - 2 ^ 971" by simp
  finally show ?thesis .
next
  case False
  have lt: "t < 2 powi (1023 + 1)"
    using assms(2) by (simp add: overflow_threshold_def)
  have "exponent t = max 1023 (- 1022)"
    using False assms(1) lt by (intro exponent_eqI) simp_all
  then have e: "exponent t = 1023" by simp
  define n where "n = round_half_even (t / 2 powi 971)"
  have fl: "fl t = 2 powi 971 * real_of_int n"
    by (simp add: fl_def ulp_def e n_def)
  have "t / 2 powi 971 < 2 ^ 53 - 1 / 2"
    using assms(2) by (simp add: overflow_threshold_def pos_divide_less_eq)
  moreover have "real_of_int n \<le> t / 2 powi 971 + 1 / 2"
    using round_half_even_error[of "t / 2 powi 971"] unfolding n_def by linarith
  ultimately have "real_of_int n < 2 ^ 53" by linarith
  then have "n < 2 ^ 53" by simp
  then have "n \<le> 2 ^ 53 - 1" by simp
  then have "real_of_int n \<le> real_of_int (2 ^ 53 - 1)" by (simp only: of_int_le_iff)
  then have "real_of_int n \<le> 2 ^ 53 - 1" by simp
  then have "2 powi 971 * real_of_int n \<le> 2 powi 971 * (2 ^ 53 - 1)"
    by (intro mult_left_mono) simp_all
  also have "\<dots> = 2 ^ 1024 - 2 ^ 971" by simp
  finally show ?thesis unfolding fl .
qed

lemma fl_below_threshold:
  assumes "\<bar>x\<bar> < overflow_threshold"
  shows "\<bar>fl x\<bar> \<le> 2 ^ 1024 - 2 ^ 971"
proof (cases "0 \<le> x")
  case True
  with assms fl_below_threshold_pos[of x] fl_nonneg[of x] show ?thesis by simp
next
  case False
  with assms fl_below_threshold_pos[of "- x"] fl_nonneg[of "- x"] show ?thesis
    by (simp add: fl_minus)
qed

lemma fl_unit_interval:
  assumes "0 \<le> x" and "x \<le> 1"
  shows "0 \<le> fl x" and "fl x \<le> 1"
  using fl_mono[OF assms(2)] fl_nonneg[OF assms(1)] by (simp_all add: fl_one)

subsection \<open>The luminance in binary64\<close>

lemma coefficients_f64:
  "REC709_COEFFICIENTS_f64 =
     \<lparr>red_f64 = Num (fl 0.2126), green_f64 = Num (fl 0.7152), blue_f64 = Num (fl 0.0722)\<rparr>"
  by (simp add: REC709_COEFFICIENTS_f64_def round64_def overflow_threshold_def)

lemma coefficient_bounds:
  "1 / 8 \<le> fl 0.2126" "fl 0.2126 \<le> 1"
  "1 / 2 \<le> fl 0.7152" "fl 0.7152 \<le> 1"
  "1 / 16 \<le> fl 0.0722" "fl 0.0722 \<le> 1"
  using fl_mono[of "2 powi (- 3)" "0.2126"] fl_mono[of "0.2126" "2 powi 0"]
    fl_mono[of "2 powi (- 1)" "0.7152"] fl_mono[of "0.7152" "2 powi 0"]
    fl_mono[of "2 powi (- 4)" "0.0722"] fl_mono[of "0.0722" "2 powi 0"]
    fl_pow2[of "- 3"] fl_pow2[of "- 1"] fl_pow2[of "- 4"] fl_pow2[of 0]
  by simp_all

text \<open>The luminance of a triple of finite numbers of magnitude at most \<open>2 ^ 1000\<close>.\<close>

lemma weighted_term:
  assumes "0 \<le> w" and "w \<le> 1" and "\<bar>x\<bar> \<le> 2 powi 1000"
  shows "fmul (Num w) (Num x) = Num (fl (w * x))" and "\<bar>fl (w * x)\<bar> \<le> 2 powi 1000"
proof -
  have "\<bar>w * x\<bar> \<le> 1 * \<bar>x\<bar>"
    unfolding abs_mult using assms(1,2) by (intro mult_right_mono) simp_all
  with assms(3) have b: "\<bar>w * x\<bar> \<le> 2 powi 1000" by simp
  then show "\<bar>fl (w * x)\<bar> \<le> 2 powi 1000" by (rule fl_abs_le_pow2) simp
  have "(2::real) powi 1000 \<le> 2 powi 1002" unfolding pow2_le_iff by simp
  with b have "\<bar>w * x\<bar> \<le> 2 powi 1002" by linarith
  then show "fmul (Num w) (Num x) = Num (fl (w * x))" by (simp only: fmul.simps round64_Num)
qed

lemma calculateLuminance_f64_Num:
  assumes "\<bar>x\<bar> \<le> 2 powi 1000" and "\<bar>y\<bar> \<le> 2 powi 1000" and "\<bar>z\<bar> \<le> 2 powi 1000"
  shows "calculateLuminance_f64 \<lparr>r_f64 = Num x, g_f64 = Num y, b_f64 = Num z\<rparr> =
    Num (fl (fl (fl (fl 0.2126 * x) + fl (fl 0.7152 * y)) + fl (fl 0.0722 * z)))"
proof -
  have w: "0 \<le> fl 0.2126" "0 \<le> fl 0.7152" "0 \<le> fl 0.0722"
    using coefficient_bounds by linarith+
  note tr = weighted_term[OF w(1) coefficient_bounds(2) assms(1)]
  note tg = weighted_term[OF w(2) coefficient_bounds(4) assms(2)]
  note tb = weighted_term[OF w(3) coefficient_bounds(6) assms(3)]
  have p: "(2::real) powi 1000 + 2 powi 1000 = 2 powi 1001"
    using pow2_add[of 1000 1] by simp
  have "\<bar>fl (fl 0.2126 * x) + fl (fl 0.7152 * y)\<bar> \<le> 2 powi 1001"
    using tr(2) tg(2) unfolding p[symmetric] by linarith
  then have s1: "\<bar>fl (fl 0.2126 * x) + fl (fl 0.7152 * y)\<bar> \<le> 2 powi 1002"
    and s2: "\<bar>fl (fl (fl 0.2126 * x) + fl (fl 0.7152 * y))\<bar> \<le> 2 powi 1001"
    using pow2_le_iff[of 1001 1002] fl_abs_le_pow2[of _ 1001] by simp_all
  have q: "(2::real) powi 1001 + 2 powi 1000 \<le> 2 powi 1002"
    using pow2_add[of 1001 1] pow2_le_iff[of 1000 1001] by simp
  have s3: "\<bar>fl (fl (fl 0.2126 * x) + fl (fl 0.7152 * y)) + fl (fl 0.0722 * z)\<bar> \<le> 2 powi 1002"
    using s2 tb(2) q by linarith
  show ?thesis
    unfolding calculateLuminance_f64_def coefficients_f64
    by (simp only: coefficients_f64.simps rgb_f64.simps tr(1) tg(1) tb(1) fadd.simps
        round64_Num[OF s1] round64_Num[OF s3])
qed

lemma weighted_sum_mono:
  assumes "x \<le> x'" and "y \<le> y'" and "z \<le> z'"
  shows "fl (fl (fl (fl 0.2126 * x) + fl (fl 0.7152 * y)) + fl (fl 0.0722 * z))
    \<le> fl (fl (fl (fl 0.2126 * x') + fl (fl 0.7152 * y')) + fl (fl 0.0722 * z'))"
proof -
  have w: "0 \<le> fl 0.2126" "0 \<le> fl 0.7152" "0 \<le> fl 0.0722"
    using coefficient_bounds by linarith+
  show ?thesis
    using assms w by (intro fl_mono add_mono mult_left_mono)
qed

lemma weighted_sum_one:
  "fl (fl (fl (fl 0.2126 * 1) + fl (fl 0.7152 * 1)) + fl (fl 0.0722 * 1)) = 1"
  by (simp add: f64_eval)

lemma weighted_sum_zero:
  "fl (fl (fl (fl 0.2126 * 0) + fl (fl 0.7152 * 0)) + fl (fl 0.0722 * 0)) = 0"
  by (simp add: fl_zero)

lemma weighted_sum_positive:
  assumes "0 \<le> x" and "0 \<le> y" and "0 \<le> z"
    and "2 powi (- 1000) \<le> x \<or> 2 powi (- 1000) \<le> y \<or> 2 powi (- 1000) \<le> z"
  shows "0 < fl (fl (fl (fl 0.2126 * x) + fl (fl 0.7152 * y)) + fl (fl 0.0722 * z))"
proof -
  define P where "P = (2::real) powi (- 1004)"
  define M where "M = (2::real) powi (- 1000)"
  have P: "0 < P" by (simp add: P_def)
  have flP: "P \<le> fl t" if "P \<le> t" for t
    using that unfolding P_def by (rule fl_ge_pow2) simp
  have PM: "P = 1 / 16 * M"
    using pow2_add[of "- 4" "- 1000"] by (simp add: P_def M_def)
  have M: "0 < M" by (simp add: M_def)
  have w: "1 / 16 \<le> fl 0.2126" "1 / 16 \<le> fl 0.7152" "1 / 16 \<le> fl 0.0722"
    using coefficient_bounds by linarith+
  have big: "P \<le> c * t" if "1 / 16 \<le> c" "M \<le> t" for c t
  proof -
    have "1 / 16 * M \<le> c * t" using that M by (intro mult_mono) simp_all
    then show ?thesis by (simp only: PM)
  qed
  have nn: "0 \<le> fl (c * t)" if "1 / 16 \<le> c" "0 \<le> t" for c t
    using that by (intro fl_nonneg mult_nonneg_nonneg) simp_all
  have a: "0 \<le> fl (fl 0.2126 * x)" and b': "0 \<le> fl (fl 0.7152 * y)"
    and c: "0 \<le> fl (fl 0.0722 * z)"
    using nn w assms(1-3) by simp_all
  from assms(4) have "P \<le> fl (fl 0.2126 * x) \<or> P \<le> fl (fl 0.7152 * y) \<or> P \<le> fl (fl 0.0722 * z)"
    unfolding M_def[symmetric] using big w flP by blast
  then consider "P \<le> fl (fl 0.2126 * x) + fl (fl 0.7152 * y)" | "P \<le> fl (fl 0.0722 * z)"
    using a b' by linarith
  then have "P \<le> fl (fl (fl 0.2126 * x) + fl (fl 0.7152 * y)) + fl (fl 0.0722 * z)"
  proof cases
    case 1
    from flP[OF 1] c show ?thesis by linarith
  next
    case 2
    have "0 \<le> fl (fl (fl 0.2126 * x) + fl (fl 0.7152 * y))"
      using a b' by (intro fl_nonneg) simp
    with 2 show ?thesis by linarith
  qed
  from flP[OF this] P show ?thesis by linarith
qed

lemma luminance_f64_unit_interval:
  assumes "0 \<le> x" and "x \<le> 1" and "0 \<le> y" and "y \<le> 1" and "0 \<le> z" and "z \<le> 1"
  shows "\<exists>u. calculateLuminance_f64 \<lparr>r_f64 = Num x, g_f64 = Num y, b_f64 = Num z\<rparr> = Num u \<and>
     u = fl (fl (fl (fl 0.2126 * x) + fl (fl 0.7152 * y)) + fl (fl 0.0722 * z)) \<and>
     0 \<le> u \<and> u \<le> 1 \<and>
     (x = 0 \<and> y = 0 \<and> z = 0 \<longrightarrow> u = 0) \<and>
     (2 powi (- 1000) \<le> x \<or> 2 powi (- 1000) \<le> y \<or> 2 powi (- 1000) \<le> z \<longrightarrow> 0 < u)"
proof -
  have one: "(1::real) \<le> 2 powi 1000" using pow2_le_iff[of 0 1000] by simp
  have "\<bar>x\<bar> \<le> 2 powi 1000" "\<bar>y\<bar> \<le> 2 powi 1000" "\<bar>z\<bar> \<le> 2 powi 1000"
    using assms one by linarith+
  note eq = calculateLuminance_f64_Num[OF this]
  have lo: "0 \<le> fl (fl (fl (fl 0.2126 * x) + fl (fl 0.7152 * y)) + fl (fl 0.0722 * z))"
    using weighted_sum_mono[of 0 x 0 y 0 z] assms unfolding weighted_sum_zero by simp
  have hi: "fl (fl (fl (fl 0.2126 * x) + fl (fl 0.7152 * y)) + fl (fl 0.0722 * z)) \<le> 1"
    using weighted_sum_mono[of x 1 y 1 z 1] assms unfolding weighted_sum_one by simp
  have z: "fl (fl (fl (fl 0.2126 * x) + fl (fl 0.7152 * y)) + fl (fl 0.0722 * z)) = 0"
    if "x = 0 \<and> y = 0 \<and> z = 0"
    using that weighted_sum_zero by simp
  have p: "0 < fl (fl (fl (fl 0.2126 * x) + fl (fl 0.7152 * y)) + fl (fl 0.0722 * z))"
    if "2 powi (- 1000) \<le> x \<or> 2 powi (- 1000) \<le> y \<or> 2 powi (- 1000) \<le> z"
    using weighted_sum_positive[OF assms(1,3,5) that] .
  from eq lo hi z p show ?thesis by blast
qed

lemma fl_tiny_product:
  assumes "0 \<le> c" and "c < 1 / 2"
  shows "fl (c * 2 powi (- 1074)) = 0"
proof (rule fl_subnormal_eqI[where n = 0])
  have "c * 2 powi (- 1074) < 1 * 2 powi (- 1074)"
    using assms by (intro mult_strict_right_mono) simp_all
  also have "\<dots> < 2 powi (- 1022)" using pow2_less_iff[of "- 1074" "- 1022"] by simp
  finally have "c * 2 powi (- 1074) < 2 powi (- 1022)" .
  moreover have "0 \<le> c * 2 powi (- 1074)" using assms by simp
  ultimately show "\<bar>c * 2 powi (- 1074)\<bar> < 2 powi (- 1022)" by linarith
  have "c * 2 powi (- 1074) / 2 powi (- 1074) = c" by simp
  moreover have "round_half_even c = 0"
  proof -
    have "\<lfloor>c\<rfloor> = 0" using assms by (simp add: floor_eq_iff)
    then show ?thesis using assms by (simp add: round_half_even_def)
  qed
  ultimately show "round_half_even (c * 2 powi (- 1074) / 2 powi (- 1074)) = 0" by simp
  show "0 = 2 powi (- 1074) * real_of_int 0" by simp
qed

text \<open>
  The smallest positive number as red component, green and blue 0: the red term
  underflows and the luminance returned is 0, for a triple in range that is not black.
\<close>

theorem calculateLuminance_f64_underflow_counterexample:
  "(0::real) < 2 powi (- 1074) \<and> (2::real) powi (- 1074) \<le> 1 \<and>
   calculateLuminance_f64 \<lparr>r_f64 = Num (2 powi (- 1074)), g_f64 = Num 0, b_f64 = Num 0\<rparr> = Num 0"
proof -
  have c: "0 \<le> fl 0.2126" "fl 0.2126 < 1 / 2"
    using fl_mono[of "0.2126" "2 powi (- 2)"] fl_pow2[of "- 2"] coefficient_bounds(1) by simp_all
  have small: "\<bar>(2::real) powi (- 1074)\<bar> \<le> 2 powi 1000"
    using pow2_le_iff[of "- 1074" 1000] by simp
  have zero: "\<bar>0::real\<bar> \<le> 2 powi 1000" by simp
  have "calculateLuminance_f64 \<lparr>r_f64 = Num (2 powi (- 1074)), g_f64 = Num 0, b_f64 = Num 0\<rparr> = Num 0"
    unfolding calculateLuminance_f64_Num[OF small zero zero] fl_tiny_product[OF c]
    by (simp add: fl_zero)
  moreover have "(2::real) powi (- 1074) \<le> 1" using pow2_le_iff[of "- 1074" 0] by simp
  ultimately show ?thesis by simp
qed

text \<open>
  C7 (as amended): on components between 0 and 1 \<open>calculateLuminance\<close> returns a
  finite number, the weighted sum with the Rec. 709 weights in which every product and
  every sum is rounded to binary64; it lies between 0 and 1, it is 0 for black, and it is
  positive as soon as one component is at least \<open>2 ^ -1000\<close>, which every channel
  of a decoded colour other than 0 is.
\<close>

theorem calculateLuminance_f64_range:
  assumes "0 \<le> x" and "x \<le> 1" and "0 \<le> y" and "y \<le> 1" and "0 \<le> z" and "z \<le> 1"
  shows "\<exists>u. calculateLuminance_f64 \<lparr>r_f64 = Num x, g_f64 = Num y, b_f64 = Num z\<rparr> = Num u \<and>
     u = fl (fl (fl (fl 0.2126 * x) + fl (fl 0.7152 * y)) + fl (fl 0.0722 * z)) \<and>
     0 \<le> u \<and> u \<le> 1 \<and>
     (x = 0 \<and> y = 0 \<and> z = 0 \<longrightarrow> u = 0) \<and>
     (2 powi (- 1000) \<le> x \<or> 2 powi (- 1000) \<le> y \<or> 2 powi (- 1000) \<le> z \<longrightarrow> 0 < u)"
  using assms by (rule luminance_f64_unit_interval)

theorem calculateLuminance_f64_range_witness:
  "(\<exists>u. calculateLuminance_f64 \<lparr>r_f64 = Num 1, g_f64 = Num 0, b_f64 = Num 1\<rparr> = Num u \<and>
      0 < u \<and> u \<le> 1) \<and>
   calculateLuminance_f64 \<lparr>r_f64 = Num 0, g_f64 = Num 0, b_f64 = Num 0\<rparr> = Num 0"
  using calculateLuminance_f64_range[of 1 0 1] calculateLuminance_f64_range[of 0 0 0]
    pow2_le_iff[of "- 1000" 0]
  by auto




subsection \<open>The decoder in binary64\<close>

lemma channel_f64:
  assumes "is_hex_digit x" and "is_hex_digit y"
  shows "fdiv (Num (real_of_int (16 * digit_value x + digit_value y))) (Num 255) = Num (fl (channel x y))"
proof -
  from channel_range[OF assms] have "\<bar>channel x y\<bar> \<le> 2 powi 1002"
    using pow2_le_iff[of 0 1002] by simp
  from round64_Num[OF this] show ?thesis by (simp add: channel_def)
qed

lemma hexToRgb_f64_clean:
  assumes "replace_first (CHR ''#'') [] hex = [x1, x2, x3, x4, x5, x6]"
    and "list_all is_hex_digit [x1, x2, x3, x4, x5, x6]"
  shows "hexToRgb_f64 hex =
    Inr \<lparr>r_f64 = Num (fl (channel x1 x2)), g_f64 = Num (fl (channel x3 x4)),
         b_f64 = Num (fl (channel x5 x6))\<rparr>"
  using assms
  by (simp add: hexToRgb_f64_def hex6_test_def substring_def parseInt16_two_digits channel_f64
      del: fdiv.simps of_int_add of_int_mult)

text \<open>The decoder in binary64 accepts the same strings and rounds each channel.\<close>

lemma hexToRgb_f64_eq:
  "hexToRgb_f64 hex =
     (case hexToRgb hex of
        Inl e \<Rightarrow> Inl e
      | Inr c \<Rightarrow> Inr \<lparr>r_f64 = Num (fl (r c)), g_f64 = Num (fl (g c)), b_f64 = Num (fl (b c))\<rparr>)"
proof (cases "hex6_test (replace_first (CHR ''#'') [] hex)")
  case True
  then obtain x1 x2 x3 x4 x5 x6 where
    "replace_first (CHR ''#'') [] hex = [x1, x2, x3, x4, x5, x6]"
    "list_all is_hex_digit [x1, x2, x3, x4, x5, x6]"
    "hexToRgb hex = Inr \<lparr>r = channel x1 x2, g = channel x3 x4, b = channel x5 x6\<rparr>"
    by (rule hexToRgb_valid)
  then show ?thesis by (simp add: hexToRgb_f64_clean)
next
  case False
  then show ?thesis by (simp add: hexToRgb_invalid hexToRgb_f64_def)
qed

lemma hexToRgb_f64_Inr:
  assumes "hexToRgb_f64 hex = Inr c"
  obtains x y z where "c = \<lparr>r_f64 = Num x, g_f64 = Num y, b_f64 = Num z\<rparr>"
    "0 \<le> x" "x \<le> 1" "0 \<le> y" "y \<le> 1" "0 \<le> z" "z \<le> 1"
proof -
  from assms obtain c' where c': "hexToRgb hex = Inr c'"
    and c: "c = \<lparr>r_f64 = Num (fl (r c')), g_f64 = Num (fl (g c')), b_f64 = Num (fl (b c'))\<rparr>"
    by (auto simp: hexToRgb_f64_eq split: sum.splits)
  from hexToRgb_range[OF c'] show thesis
    using that[OF c] by (simp add: fl_unit_interval)
qed

lemma luminance_f64_decoded:
  assumes "hexToRgb_f64 hex = Inr c"
  obtains l where "calculateLuminance_f64 c = Num l" "0 \<le> l" "l \<le> 1"
proof -
  from assms obtain x y z where "c = \<lparr>r_f64 = Num x, g_f64 = Num y, b_f64 = Num z\<rparr>"
    "0 \<le> x" "x \<le> 1" "0 \<le> y" "y \<le> 1" "0 \<le> z" "z \<le> 1"
    by (rule hexToRgb_f64_Inr)
  with luminance_f64_unit_interval[of x y z] show thesis using that by auto
qed

subsection \<open>Partial compensation in binary64\<close>

lemma fdiv_Num_result:
  assumes "l \<noteq> 0" and "fdiv t (Num l) = Num v"
  obtains x where "t = Num x" "v = fl (x / l)" "\<bar>x / l\<bar> < overflow_threshold"
  using assms by (cases t) (auto simp: round64_def split: if_splits)

lemma blend_zero:
  assumes "\<bar>v\<bar> \<le> 2 ^ 1024 - 2 ^ 971"
  shows "fadd (Num 1) (fmul (fsub (Num v) (Num 1)) (Num 0)) = Num 1"
proof -
  have "\<bar>v + - 1\<bar> < overflow_threshold"
    using assms by (simp add: overflow_threshold_def)
  then have "fsub (Num v) (Num 1) = Num (fl (v + - 1))"
    by (simp add: fsub_def round64_def)
  moreover have "round64 0 = Num 0" "round64 1 = Num 1"
    by (simp_all add: round64_def overflow_threshold_def fl_zero fl_one)
  ultimately show ?thesis by simp
qed




lemma emissive_f64_nonzero:
  assumes "hexToRgb_f64 c = Inr rgb" and "calculateLuminance_f64 rgb \<noteq> Num 0"
  shows "calculateEmissiveIntensity_f64 c target =
    Inr (fdiv (default_param (round64 1.05) target) (calculateLuminance_f64 rgb), [])"
  using assms by (simp add: calculateEmissiveIntensity_f64_def)

lemma artistic_f64_nonzero:
  assumes "hexToRgb_f64 c = Inr rgb" and "calculateLuminance_f64 rgb \<noteq> Num 0"
  shows "calculateArtisticIntensity_f64 c target factor =
    Inr (fadd (Num 1)
          (fmul (fsub (fdiv (default_param (Num 2) target) (calculateLuminance_f64 rgb)) (Num 1))
             (default_param (Num (1 / 2)) factor)), [])"
  using assms by (simp add: calculateArtisticIntensity_f64_def)

lemma emissive_f64_finite:
  assumes "calculateEmissiveIntensity_f64 c (Some t) = Inr (Num e, [])"
  obtains rgb where "hexToRgb_f64 c = Inr rgb" "calculateLuminance_f64 rgb \<noteq> Num 0"
    "fdiv t (calculateLuminance_f64 rgb) = Num e" "\<bar>e\<bar> \<le> 2 ^ 1024 - 2 ^ 971"
proof -
  from assms obtain rgb where rgb: "hexToRgb_f64 c = Inr rgb"
    by (cases "hexToRgb_f64 c") (auto simp: calculateEmissiveIntensity_f64_def)
  from assms rgb have nz: "calculateLuminance_f64 rgb \<noteq> Num 0"
    by (auto simp: calculateEmissiveIntensity_f64_def)
  from assms have q: "fdiv t (calculateLuminance_f64 rgb) = Num e"
    by (simp add: emissive_f64_nonzero[OF rgb nz] default_param_def)
  from rgb obtain l where l: "calculateLuminance_f64 rgb = Num l" by (rule luminance_f64_decoded)
  with nz have "l \<noteq> 0" by simp
  from this q[unfolded l] obtain x where x: "e = fl (x / l)" "\<bar>x / l\<bar> < overflow_threshold"
    by (rule fdiv_Num_result)
  have "\<bar>e\<bar> \<le> 2 ^ 1024 - 2 ^ 971" unfolding x(1) using x(2) by (rule fl_below_threshold)
  with rgb nz q show thesis by (rule that)
qed

text \<open>
  The module evaluated on magenta and on cyan.
\<close>

lemmas f64_model_defs = calculateLuminance_f64_def REC709_COEFFICIENTS_f64_def
  calculateEmissiveIntensity_f64_def calculateArtisticIntensity_f64_def hexToRgb_f64_def

lemma hexToRgb_f64_magenta:
  "hexToRgb_f64 ''#ff00ff'' = Inr \<lparr>r_f64 = Num 1, g_f64 = Num 0, b_f64 = Num 1\<rparr>"
  by (simp add: f64_eval hexToRgb_f64_def eval_defs)

lemma hexToRgb_f64_cyan:
  "hexToRgb_f64 ''#00ffff'' = Inr \<lparr>r_f64 = Num 0, g_f64 = Num 1, b_f64 = Num 1\<rparr>"
  by (simp add: f64_eval hexToRgb_f64_def eval_defs)

lemma luminance_f64_magenta:
  "calculateLuminance_f64 \<lparr>r_f64 = Num 1, g_f64 = Num 0, b_f64 = Num 1\<rparr> =
     Num (5130500695500469 / 2 ^ 54)"
  by (simp add: f64_eval calculateLuminance_f64_def REC709_COEFFICIENTS_f64_def)

lemma luminance_f64_cyan:
  "calculateLuminance_f64 \<lparr>r_f64 = Num 0, g_f64 = Num 1, b_f64 = Num 1\<rparr> =
     Num (7092268693183057 / 2 ^ 53)"
  by (simp add: f64_eval calculateLuminance_f64_def REC709_COEFFICIENTS_f64_def)

lemmas f64_colour_eval = calculateEmissiveIntensity_f64_def calculateArtisticIntensity_f64_def
  hexToRgb_f64_magenta hexToRgb_f64_cyan luminance_f64_magenta luminance_f64_cyan
  default_param_def f64_eval

text \<open>
  White at target 0.1 and factor 1: the full compensation is the target, and the value
  returned is one unit in the last place below it. Blue at target \<open>2 ^ 1023\<close> and
  factor 0: the full compensation overflows to infinity, and the value returned is NaN,
  not 1.
\<close>

theorem artistic_f64_rounding_counterexample:
  "calculateEmissiveIntensity_f64 ''#ffffff'' (Some (Num (7205759403792794 / 2 ^ 56)))
     = Inr (Num (7205759403792794 / 2 ^ 56), []) \<and>
   calculateArtisticIntensity_f64 ''#ffffff'' (Some (Num (7205759403792794 / 2 ^ 56))) (Some (Num 1))
     = Inr (Num (7205759403792792 / 2 ^ 56), []) \<and>
   (7205759403792792 / 2 ^ 56 :: real) \<noteq> 7205759403792794 / 2 ^ 56 \<and>
   calculateEmissiveIntensity_f64 ''#0000ff'' (Some (Num (2 ^ 1023))) = Inr (PosInf, []) \<and>
   calculateArtisticIntensity_f64 ''#0000ff'' (Some (Num (2 ^ 1023))) (Some (Num 0)) = Inr (NaN, [])"
  by (simp add: f64_eval f64_model_defs eval_defs)

text \<open>
  C5 (as amended): for a valid colour of nonzero base luminance, every target and every
  factor, \<open>calculateArtisticIntensity\<close> returns 1 plus the factor times the full
  compensation minus 1, each operation rounded to binary64, where the full compensation
  is the value of \<open>calculateEmissiveIntensity\<close>; when the full compensation is
  finite, factor 0 gives exactly 1.
\<close>

theorem artistic_f64_is_blend:
  assumes "hexToRgb_f64 c = Inr rgb" and "calculateLuminance_f64 rgb \<noteq> Num 0"
  shows "\<exists>e. calculateEmissiveIntensity_f64 c (Some t) = Inr (e, []) \<and>
     calculateArtisticIntensity_f64 c (Some t) (Some f) =
       Inr (fadd (Num 1) (fmul (fsub e (Num 1)) f), []) \<and>
     ((\<exists>v. e = Num v) \<longrightarrow>
        calculateArtisticIntensity_f64 c (Some t) (Some (Num 0)) = Inr (Num 1, []))"
proof -
  define e where "e = fdiv t (calculateLuminance_f64 rgb)"
  have E: "calculateEmissiveIntensity_f64 c (Some t) = Inr (e, [])"
    by (simp add: emissive_f64_nonzero[OF assms] default_param_def e_def)
  have A: "calculateArtisticIntensity_f64 c (Some t) (Some f') =
      Inr (fadd (Num 1) (fmul (fsub e (Num 1)) f'), [])" for f'
    by (simp add: artistic_f64_nonzero[OF assms] default_param_def e_def)
  have "calculateArtisticIntensity_f64 c (Some t) (Some (Num 0)) = Inr (Num 1, [])"
    if "e = Num v" for v
  proof -
    from E that have "calculateEmissiveIntensity_f64 c (Some t) = Inr (Num v, [])" by simp
    then have "\<bar>v\<bar> \<le> 2 ^ 1024 - 2 ^ 971" by (rule emissive_f64_finite)
    then show ?thesis unfolding A that by (simp only: blend_zero)
  qed
  with E A show ?thesis by blast
qed

theorem artistic_f64_is_blend_witness:
  "calculateEmissiveIntensity_f64 ''#ff00ff'' (Some (Num 2)) = Inr (Num (3953300234700225 / 2 ^ 49), []) \<and>
   calculateArtisticIntensity_f64 ''#ff00ff'' (Some (Num 2)) (Some (Num (- 1 / 2))) =
     Inr (fadd (Num 1) (fmul (fsub (Num (3953300234700225 / 2 ^ 49)) (Num 1)) (Num (- 1 / 2))), []) \<and>
   calculateArtisticIntensity_f64 ''#ff00ff'' (Some (Num 2)) (Some (Num 0)) = Inr (Num 1, [])"
proof -
  have l: "calculateLuminance_f64 \<lparr>r_f64 = Num 1, g_f64 = Num 0, b_f64 = Num 1\<rparr> \<noteq> Num 0"
    by (simp add: luminance_f64_magenta)
  have e: "calculateEmissiveIntensity_f64 ''#ff00ff'' (Some (Num 2)) = Inr (Num (3953300234700225 / 2 ^ 49), [])"
    by (simp add: f64_colour_eval)
  from artistic_f64_is_blend[OF hexToRgb_f64_magenta l, of "Num 2" "Num (- 1 / 2)"]
  obtain e' where E: "calculateEmissiveIntensity_f64 ''#ff00ff'' (Some (Num 2)) = Inr (e', [])"
    and A: "calculateArtisticIntensity_f64 ''#ff00ff'' (Some (Num 2)) (Some (Num (- 1 / 2))) =
       Inr (fadd (Num 1) (fmul (fsub e' (Num 1)) (Num (- 1 / 2))), [])"
    and Z: "(\<exists>v. e' = Num v) \<longrightarrow>
        calculateArtisticIntensity_f64 ''#ff00ff'' (Some (Num 2)) (Some (Num 0)) = Inr (Num 1, [])"
    by blast
  from E e have e': "e' = Num (3953300234700225 / 2 ^ 49)" by (simp only: sum.inject prod.inject)
  from Z e' have "calculateArtisticIntensity_f64 ''#ff00ff'' (Some (Num 2)) (Some (Num 0)) = Inr (Num 1, [])"
    by blast
  with e A[unfolded e'] show ?thesis by blast
qed



text \<open>
  The gap need not grow at every step: from factor 0.75 to the next binary64 number above
  it, the output for magenta stays and the output for cyan rises, so the gap shrinks.
\<close>

lemma artistic_f64_gap_adjacent_factors:
  "calculateArtisticIntensity_f64 ''#ff00ff'' (Some (Num 2)) (Some (Num (3 / 4))) =
     Inr (Num (3105712664380497 / 2 ^ 49), []) \<and>
   calculateArtisticIntensity_f64 ''#00ffff'' (Some (Num 2)) (Some (Num (3 / 4))) =
     Inr (Num (2426318588933079 / 2 ^ 50), []) \<and>
   calculateArtisticIntensity_f64 ''#ff00ff'' (Some (Num 2)) (Some (Num (6755399441055745 / 2 ^ 53))) =
     Inr (Num (3105712664380497 / 2 ^ 49), []) \<and>
   calculateArtisticIntensity_f64 ''#00ffff'' (Some (Num 2)) (Some (Num (6755399441055745 / 2 ^ 53))) =
     Inr (Num (4852637177866159 / 2 ^ 51), []) \<and>
   \<bar>3105712664380497 / 2 ^ 49 - 4852637177866159 / 2 ^ 51 :: real\<bar>
     < \<bar>3105712664380497 / 2 ^ 49 - 2426318588933079 / 2 ^ 50\<bar>"
  by (simp add: f64_colour_eval)

end
